theory Spec2Isabelle
  imports Complex_Main
begin

section \<open>Real NVP: the affine coupling flow of RealNVP.py\<close>

text \<open>
  The class \<open>realnvp\<close> of \<^verbatim>\<open>src/RealNVP.py\<close> composes affine coupling steps. Its tensors
  are modelled over the real numbers: a rank-1 tensor (a mask, a per-sample log-determinant)
  is a list of reals, a rank-2 tensor of shape \<open>[B, D]\<close> (a batch of \<open>B\<close> samples of
  dimension \<open>D\<close>) is a list of \<open>B\<close> rows. Floating-point rounding and
  TensorFlow's broadcasting of tensors of other shapes are outside this model: every
  statement below that depends on shapes says which shapes it is about. Overflow of
  \<open>exp\<close> to an infinity is modelled apart, for one coordinate of the two transforms, in
  the arithmetic of finite values, infinities and NaN.
\<close>

subsection \<open>Tensors\<close>

type_synonym vec = "real list"
type_synonym batch = "real list list"

text \<open>
  A feature network (\<open>self.layers[i]\<close>, an \<open>s_t\<close> instance in the source) is called on
  the whole masked batch and returns the pair \<open>(s, t)\<close>. It is kept opaque: any function.
\<close>

type_synonym s_t = "batch \<Rightarrow> batch \<times> batch"

text \<open>The only method of \<open>self.distr\<close> that the class calls is \<open>log_prob\<close>.\<close>

type_synonym distribution = "batch \<Rightarrow> vec"

definition shaped :: "nat \<Rightarrow> nat \<Rightarrow> batch \<Rightarrow> bool" where
  "shaped B D x = (length x = B \<and> list_all (\<lambda>r. length r = D) x)"

definition binary :: "vec \<Rightarrow> bool" where
  "binary m = list_all (\<lambda>a. a = 0 \<or> a = 1) m"

text \<open>Elementwise operations; \<open>tv\<close> and \<open>vt\<close> broadcast a vector over the rows.\<close>

definition mul_tt :: "batch \<Rightarrow> batch \<Rightarrow> batch" where
  "mul_tt x y = map2 (map2 (*)) x y"

definition add_tt :: "batch \<Rightarrow> batch \<Rightarrow> batch" where
  "add_tt x y = map2 (map2 (+)) x y"

definition sub_tt :: "batch \<Rightarrow> batch \<Rightarrow> batch" where
  "sub_tt x y = map2 (map2 (-)) x y"

definition mul_tv :: "batch \<Rightarrow> vec \<Rightarrow> batch" where
  "mul_tv x m = map (\<lambda>r. map2 (*) r m) x"

definition mul_vt :: "vec \<Rightarrow> batch \<Rightarrow> batch" where
  "mul_vt m x = map (\<lambda>r. map2 (*) m r) x"

definition neg_t :: "batch \<Rightarrow> batch" where
  "neg_t x = map (map uminus) x"

definition exp_t :: "batch \<Rightarrow> batch" where
  "exp_t x = map (map exp) x"

definition one_minus :: "vec \<Rightarrow> vec" where
  "one_minus m = map (\<lambda>a. 1 - a) m"

text \<open>\<open>tf.reduce_sum(s, [1])\<close>: the sum of every row, over all its coordinates.\<close>

definition reduce_sum_1 :: "batch \<Rightarrow> vec" where
  "reduce_sum_1 s = map sum_list s"

text \<open>\<open>tf.zeros(n)\<close>.\<close>

definition zeros :: "nat \<Rightarrow> vec" where
  "zeros n = replicate n 0"

definition add_v :: "vec \<Rightarrow> vec \<Rightarrow> vec" where
  "add_v a b = map2 (+) a b"

definition sub_v :: "vec \<Rightarrow> vec \<Rightarrow> vec" where
  "sub_v a b = map2 (-) a b"

subsection \<open>The class \<open>realnvp\<close>\<close>

datatype error = IndexError

record realnvp =
  num_cl :: nat
  distr :: distribution
  masks :: "vec list"
  layers :: "s_t list"

text \<open>
  \<open>realnvp.__init__\<close> stores its arguments and the number of masks. It has no check and
  no \<open>raise\<close>: the result is always \<open>Inr\<close>.
\<close>

definition realnvp_init :: "s_t list \<Rightarrow> vec list \<Rightarrow> distribution \<Rightarrow> error + realnvp" where
  "realnvp_init ls ms d =
     Inr \<lparr>num_cl = length ms, distr = d, masks = ms, layers = ls\<rparr>"

text \<open>Indexing a list or array at \<open>i\<close> taken from \<open>range\<close>, hence not negative.\<close>

definition index :: "'a list \<Rightarrow> nat \<Rightarrow> error + 'a" where
  "index xs i = (if i < length xs then Inr (xs ! i) else Inl IndexError)"

text \<open>A \<open>for\<close> loop over a list of indices; an exception in the body ends it.\<close>

fun for_each :: "nat list \<Rightarrow> (nat \<Rightarrow> 'a \<Rightarrow> error + 'a) \<Rightarrow> 'a \<Rightarrow> error + 'a" where
  "for_each [] body st = Inr st"
| "for_each (i # js) body st =
     (case body i st of Inl e \<Rightarrow> Inl e | Inr st' \<Rightarrow> for_each js body st')"

text \<open>
  The body of the loop of \<open>realnvp.forward\<close> (lines 139 to 145) for the mask \<open>m\<close> and
  the network \<open>net\<close> of the current index, on the loop state \<open>(x, log_det_for)\<close>.
\<close>

definition forward_step :: "vec \<Rightarrow> s_t \<Rightarrow> batch \<times> vec \<Rightarrow> batch \<times> vec" where
  "forward_step m net st =
     (case st of (x, log_det_for) \<Rightarrow>
        let x_masked = mul_tv x m;
            reversed_mask = one_minus m;
            (s, t) = net x_masked;
            x' = add_tt x_masked
                   (mul_vt reversed_mask
                      (add_tt (mul_tv (mul_tt x (exp_t s)) reversed_mask)
                              (mul_tv t reversed_mask)))
        in (x', add_v log_det_for (reduce_sum_1 s)))"

text \<open>The body of the loop of \<open>realnvp.inverse\<close> (lines 156 to 163).\<close>

definition inverse_step :: "vec \<Rightarrow> s_t \<Rightarrow> batch \<times> vec \<Rightarrow> batch \<times> vec" where
  "inverse_step m net st =
     (case st of (y, log_det_inv) \<Rightarrow>
        let y_masked = mul_tv y m;
            reversed_mask = one_minus m;
            (s, t) = net y_masked;
            y' = add_tt
                   (mul_tt (mul_vt reversed_mask (sub_tt y (mul_tv t reversed_mask)))
                           (exp_t (neg_t (mul_tv s reversed_mask))))
                   y_masked
        in (y', sub_v log_det_inv (reduce_sum_1 s)))"

definition forward_body :: "realnvp \<Rightarrow> nat \<Rightarrow> batch \<times> vec \<Rightarrow> error + batch \<times> vec" where
  "forward_body self i st =
     (case index (masks self) i of Inl e \<Rightarrow> Inl e | Inr m \<Rightarrow>
       (case index (layers self) i of Inl e \<Rightarrow> Inl e | Inr net \<Rightarrow>
          Inr (forward_step m net st)))"

definition inverse_body :: "realnvp \<Rightarrow> nat \<Rightarrow> batch \<times> vec \<Rightarrow> error + batch \<times> vec" where
  "inverse_body self i st =
     (case index (masks self) i of Inl e \<Rightarrow> Inl e | Inr m \<Rightarrow>
       (case index (layers self) i of Inl e \<Rightarrow> Inl e | Inr net \<Rightarrow>
          Inr (inverse_step m net st)))"

text \<open>\<open>for i in range(self.num_cl)\<close>, from \<open>(y, tf.zeros(y.shape[0]))\<close>.\<close>

definition forward :: "realnvp \<Rightarrow> batch \<Rightarrow> error + batch \<times> vec" where
  "forward self y = for_each [0..<num_cl self] (forward_body self) (y, zeros (length y))"

text \<open>\<open>for i in reversed(range(self.num_cl))\<close>, from \<open>(x, tf.zeros(x.shape[0]))\<close>.\<close>

definition inverse :: "realnvp \<Rightarrow> batch \<Rightarrow> error + batch \<times> vec" where
  "inverse self x =
     for_each (rev [0..<num_cl self]) (inverse_body self) (x, zeros (length x))"

definition log_likelihood :: "realnvp \<Rightarrow> batch \<Rightarrow> error + vec" where
  "log_likelihood self x =
     (case inverse self x of Inl e \<Rightarrow> Inl e
      | Inr (y, logdet) \<Rightarrow> Inr (add_v (distr self y) logdet))"

subsection \<open>Auxiliary notions used by the statements\<close>

text \<open>
  A network that respects the contract of the coupling step: on a batch of shape
  \<open>[B, D]\<close> it returns \<open>s\<close> and \<open>t\<close> of that same shape.
\<close>

definition net_ok :: "nat \<Rightarrow> nat \<Rightarrow> s_t \<Rightarrow> bool" where
  "net_ok B D net = (\<forall>x. shaped B D x \<longrightarrow> shaped B D (fst (net x)) \<and> shaped B D (snd (net x)))"

text \<open>
  A network that returns, for every sample, the same scale vector \<open>sv\<close> and the same
  translation vector \<open>tv\<close>.
\<close>

definition constant_net :: "vec \<Rightarrow> vec \<Rightarrow> s_t" where
  "constant_net sv tv x = (map (\<lambda>r. sv) x, map (\<lambda>r. tv) x)"

text \<open>
  The \<open>log_prob\<close> of the distribution of line 184, a normal distribution with mean
  \<open>0\<close> and unit diagonal scale: \<open>- |r|\<^sup>2 / 2 - D / 2 * ln (2 * pi)\<close> for a sample
  \<open>r\<close> of dimension \<open>D\<close>.
\<close>

definition normal_log_prob :: distribution where
  "normal_log_prob x =
     map (\<lambda>r. - (sum_list (map (\<lambda>a. a * a) r)) / 2 - real (length r) / 2 * ln (2 * pi)) x"

text \<open>A \<open>log_prob\<close> that gives every sample the value \<open>0\<close>.\<close>

definition flat_log_prob :: distribution where
  "flat_log_prob x = map (\<lambda>r. 0) x"

text \<open>
  The composition of coupling steps over a list of (mask, network) pairs \<open>L\<^sub>0, L\<^sub>1, \<dots>\<close>:
  \<open>compose_forward\<close> applies \<open>L\<^sub>0\<close> first and feeds each result to the next layer,
  \<open>compose_inverse\<close> applies the last layer first and \<open>L\<^sub>0\<close> last.
\<close>

fun compose_forward :: "(vec \<times> s_t) list \<Rightarrow> batch \<times> vec \<Rightarrow> batch \<times> vec" where
  "compose_forward [] st = st"
| "compose_forward ((m, net) # ls) st = compose_forward ls (forward_step m net st)"

fun compose_inverse :: "(vec \<times> s_t) list \<Rightarrow> batch \<times> vec \<Rightarrow> batch \<times> vec" where
  "compose_inverse [] st = st"
| "compose_inverse ((m, net) # ls) st = inverse_step m net (compose_inverse ls st)"

text \<open>
  The transform of the specification, with a single multiplication by the complement
  of the mask: \<open>y = x_masked + (1 - m) * (x * exp(s) + t)\<close>.
\<close>

definition spec_transform :: "vec \<Rightarrow> batch \<Rightarrow> batch \<Rightarrow> batch \<Rightarrow> batch" where
  "spec_transform m x s t =
     add_tt (mul_tv x m) (mul_vt (one_minus m) (add_tt (mul_tt x (exp_t s)) t))"

text \<open>The sum of \<open>s\<close> over the unmasked coordinates (those where the mask is \<open>0\<close>).\<close>

definition unmasked_sum :: "vec \<Rightarrow> batch \<Rightarrow> vec" where
  "unmasked_sum m s = reduce_sum_1 (mul_tv s (one_minus m))"

text \<open>
  The expression of lines 142 to 144 of \<open>realnvp.forward\<close> and the one of lines 159 to
  162 of \<open>realnvp.inverse\<close>, as functions of the mask, the input and the outputs
  \<open>s\<close> and \<open>t\<close> of the network.
\<close>

definition forward_transform :: "vec \<Rightarrow> batch \<Rightarrow> batch \<Rightarrow> batch \<Rightarrow> batch" where
  "forward_transform m x s t =
     add_tt (mul_tv x m)
       (mul_vt (one_minus m)
          (add_tt (mul_tv (mul_tt x (exp_t s)) (one_minus m)) (mul_tv t (one_minus m))))"

definition inverse_transform :: "vec \<Rightarrow> batch \<Rightarrow> batch \<Rightarrow> batch \<Rightarrow> batch" where
  "inverse_transform m y s t =
     add_tt
       (mul_tt (mul_vt (one_minus m) (sub_tt y (mul_tv t (one_minus m))))
               (exp_t (neg_t (mul_tv s (one_minus m)))))
       (mul_tv y m)"

text \<open>
  A list of (mask, network) pairs that the round-trip statements are about: every mask is
  binary and of length \<open>D\<close>, every network respects the shape \<open>[B, D]\<close>.
\<close>

definition layers_ok :: "nat \<Rightarrow> nat \<Rightarrow> (vec \<times> s_t) list \<Rightarrow> bool" where
  "layers_ok B D L = list_all (\<lambda>(m, net). binary m \<and> length m = D \<and> net_ok B D net) L"

text \<open>
  A list of (mask, network) pairs on which every tensor operation of the two loops is
  applied to operands of matching shapes: every mask has length \<open>D\<close> and every network
  respects the shape \<open>[B, D]\<close>.
\<close>

definition layers_shaped :: "nat \<Rightarrow> nat \<Rightarrow> (vec \<times> s_t) list \<Rightarrow> bool" where
  "layers_shaped B D L = list_all (\<lambda>(m, net). length m = D \<and> net_ok B D net) L"

text \<open>
  For a list \<open>L\<close> of (mask, network) pairs \<open>L\<^sub>0, \<dots>, L\<^sub>n\<^sub>-\<^sub>1\<close>: the batch after the forward
  steps of the first \<open>k\<close> layers, and the batch after the inverse steps of the layers
  \<open>L\<^sub>n\<^sub>-\<^sub>1\<close> down to \<open>L\<^sub>k\<close>.
\<close>

definition forward_upto :: "(vec \<times> s_t) list \<Rightarrow> batch \<Rightarrow> nat \<Rightarrow> batch" where
  "forward_upto L x k = fst (compose_forward (take k L) (x, zeros (length x)))"

definition inverse_downto :: "(vec \<times> s_t) list \<Rightarrow> batch \<Rightarrow> nat \<Rightarrow> batch" where
  "inverse_downto L x k = fst (compose_inverse (drop k L) (x, zeros (length x)))"

text \<open>The \<open>s\<close> that the network of a layer returns on the masked batch.\<close>

definition scale_of :: "vec \<Rightarrow> s_t \<Rightarrow> batch \<Rightarrow> batch" where
  "scale_of m net x = fst (net (mul_tv x m))"

text \<open>
  A network whose outputs depend on its input: \<open>s\<close> is the input and \<open>t\<close> is the
  input with every row reversed.
\<close>

definition echo_net :: s_t where
  "echo_net x = (x, map rev x)"

text \<open>
  \<open>realnvp.log_likelihood\<close> with the calls of \<open>self.inverse\<close> counted: the state is the
  number of calls made so far.
\<close>

definition inverse_counted ::
  "realnvp \<Rightarrow> batch \<Rightarrow> nat \<Rightarrow> (error + batch \<times> vec) \<times> nat" where
  "inverse_counted self x n = (inverse self x, Suc n)"

definition log_likelihood_counted :: "realnvp \<Rightarrow> batch \<Rightarrow> nat \<Rightarrow> (error + vec) \<times> nat" where
  "log_likelihood_counted self x n =
     (case inverse_counted self x n of
        (Inl e, n') \<Rightarrow> (Inl e, n')
      | (Inr (y, logdet), n') \<Rightarrow> (Inr (add_v (distr self y) logdet), n'))"

subsection \<open>One coordinate in the arithmetic of infinities and NaN\<close>










section \<open>Properties\<close>

subsection \<open>Basic facts about the tensor operations\<close>

lemma add_v_zeros: "length a = n \<Longrightarrow> add_v a (zeros n) = a"
  by (simp add: add_v_def zeros_def list_eq_iff_nth_eq)

lemmas tensor_defs = mul_tv_def mul_vt_def mul_tt_def add_tt_def sub_tt_def neg_t_def exp_t_def
  one_minus_def reduce_sum_1_def add_v_def sub_v_def

subsection \<open>The loops as compositions of steps\<close>

lemma for_each_append:
  "for_each (xs @ ys) body st =
     (case for_each xs body st of Inl e \<Rightarrow> Inl e | Inr st' \<Rightarrow> for_each ys body st')"
  by (induction xs arbitrary: st) (auto split: sum.splits)

lemma compose_forward_snoc:
  "compose_forward (ls @ [(m, net)]) st = forward_step m net (compose_forward ls st)"
proof (induction ls arbitrary: st)
  case Nil
  show ?case by simp
next
  case (Cons a ls)
  obtain m' net' where a: "a = (m', net')" by (cases a)
  show ?case by (simp add: a Cons.IH)
qed

lemma compose_inverse_snoc:
  "compose_inverse (ls @ [(m, net)]) st = compose_inverse ls (inverse_step m net st)"
proof (induction ls)
  case Nil
  show ?case by simp
next
  case (Cons a ls)
  obtain m' net' where a: "a = (m', net')" by (cases a)
  show ?case by (simp add: a Cons.IH)
qed

lemma zip_take_all:
  "zip ms (take (length ms) ls) = zip ms ls"
  by (simp add: list_eq_iff_nth_eq)

lemma zip_take_Suc:
  "n < length ms \<Longrightarrow> n < length ls \<Longrightarrow>
   zip (take (Suc n) ms) (take (Suc n) ls) = zip (take n ms) (take n ls) @ [(ms ! n, ls ! n)]"
  by (simp add: take_Suc_conv_app_nth)

lemma forward_loop_compose:
  "n \<le> length (masks self) \<Longrightarrow> n \<le> length (layers self) \<Longrightarrow>
   for_each [0..<n] (forward_body self) st =
     Inr (compose_forward (zip (take n (masks self)) (take n (layers self))) st)"
proof (induction n)
  case 0
  then show ?case by simp
next
  case (Suc n)
  then show ?case
    by (simp add: for_each_append forward_body_def index_def zip_take_Suc compose_forward_snoc)
qed

lemma inverse_loop_compose:
  "n \<le> length (masks self) \<Longrightarrow> n \<le> length (layers self) \<Longrightarrow>
   for_each (rev [0..<n]) (inverse_body self) st =
     Inr (compose_inverse (zip (take n (masks self)) (take n (layers self))) st)"
proof (induction n arbitrary: st)
  case 0
  then show ?case by simp
next
  case (Suc n)
  then show ?case
    by (simp add: inverse_body_def index_def zip_take_Suc compose_inverse_snoc)
qed

lemma forward_compose:
  "realnvp_init ls ms d = Inr self \<Longrightarrow> length ms \<le> length ls \<Longrightarrow>
   forward self x = Inr (compose_forward (zip ms ls) (x, zeros (length x)))"
  using forward_loop_compose [of "length ms" self "(x, zeros (length x))"]
  by (auto simp: realnvp_init_def forward_def zip_take_all)

lemma inverse_compose:
  "realnvp_init ls ms d = Inr self \<Longrightarrow> length ms \<le> length ls \<Longrightarrow>
   inverse self x = Inr (compose_inverse (zip ms ls) (x, zeros (length x)))"
  using inverse_loop_compose [of "length ms" self "(x, zeros (length x))"]
  by (auto simp: realnvp_init_def inverse_def zip_take_all)

subsection \<open>Shapes and coordinates of the two transforms\<close>

lemma forward_step_eq:
  "net (mul_tv x m) = (s, t) \<Longrightarrow>
   forward_step m net (x, ld) = (forward_transform m x s t, add_v ld (reduce_sum_1 s))"
  by (simp add: forward_step_def forward_transform_def Let_def)

lemma inverse_step_eq:
  "net (mul_tv y m) = (s, t) \<Longrightarrow>
   inverse_step m net (y, ld) = (inverse_transform m y s t, sub_v ld (reduce_sum_1 s))"
  by (simp add: inverse_step_def inverse_transform_def Let_def)

lemma shaped_length: "shaped B D x \<Longrightarrow> length x = B"
  by (simp add: shaped_def)

lemma shaped_row: "shaped B D x \<Longrightarrow> i < B \<Longrightarrow> length (x ! i) = D"
  by (simp add: shaped_def list_all_length)

lemma shapedI: "length x = B \<Longrightarrow> (\<And>i. i < B \<Longrightarrow> length (x ! i) = D) \<Longrightarrow> shaped B D x"
  by (simp add: shaped_def list_all_length)

lemma batch_eqI:
  assumes "shaped B D x" and "shaped B D y"
    and "\<And>i j. i < B \<Longrightarrow> j < D \<Longrightarrow> x ! i ! j = y ! i ! j"
  shows "x = y"
  using assms by (simp add: shaped_def list_all_length list_eq_iff_nth_eq)

lemma binary_nth: "binary m \<Longrightarrow> j < length m \<Longrightarrow> m ! j = 0 \<or> m ! j = 1"
  by (simp add: binary_def list_all_length)

lemma length_one_minus: "length (one_minus m) = length m"
  by (simp add: one_minus_def)

lemma nth_one_minus: "j < length m \<Longrightarrow> one_minus m ! j = 1 - m ! j"
  by (simp add: one_minus_def)

lemma length_mul_tv: "length (mul_tv x m) = length x"
  by (simp add: mul_tv_def)
lemma row_mul_tv: "i < length x \<Longrightarrow> mul_tv x m ! i = map2 (*) (x ! i) m"
  by (simp add: mul_tv_def)
lemma length_mul_vt: "length (mul_vt m x) = length x"
  by (simp add: mul_vt_def)
lemma row_mul_vt: "i < length x \<Longrightarrow> mul_vt m x ! i = map2 (*) m (x ! i)"
  by (simp add: mul_vt_def)
lemma length_mul_tt: "length (mul_tt x y) = min (length x) (length y)"
  by (simp add: mul_tt_def)
lemma row_mul_tt: "i < length x \<Longrightarrow> i < length y \<Longrightarrow> mul_tt x y ! i = map2 (*) (x ! i) (y ! i)"
  by (simp add: mul_tt_def)
lemma length_add_tt: "length (add_tt x y) = min (length x) (length y)"
  by (simp add: add_tt_def)
lemma row_add_tt: "i < length x \<Longrightarrow> i < length y \<Longrightarrow> add_tt x y ! i = map2 (+) (x ! i) (y ! i)"
  by (simp add: add_tt_def)
lemma length_sub_tt: "length (sub_tt x y) = min (length x) (length y)"
  by (simp add: sub_tt_def)
lemma row_sub_tt: "i < length x \<Longrightarrow> i < length y \<Longrightarrow> sub_tt x y ! i = map2 (-) (x ! i) (y ! i)"
  by (simp add: sub_tt_def)
lemma length_neg_t: "length (neg_t x) = length x"
  by (simp add: neg_t_def)
lemma row_neg_t: "i < length x \<Longrightarrow> neg_t x ! i = map uminus (x ! i)"
  by (simp add: neg_t_def)
lemma length_exp_t: "length (exp_t x) = length x"
  by (simp add: exp_t_def)
lemma row_exp_t: "i < length x \<Longrightarrow> exp_t x ! i = map exp (x ! i)"
  by (simp add: exp_t_def)

lemmas tensor_nth = length_one_minus nth_one_minus length_mul_tv row_mul_tv length_mul_vt row_mul_vt
  length_mul_tt row_mul_tt length_add_tt row_add_tt length_sub_tt row_sub_tt
  length_neg_t row_neg_t length_exp_t row_exp_t

lemma shaped_forward_transform:
  assumes "length m = D" "shaped B D x" "shaped B D s" "shaped B D t"
  shows "shaped B D (forward_transform m x s t)"
  using assms
  by (intro shapedI) (simp_all add: forward_transform_def tensor_nth shaped_length shaped_row)

lemma shaped_inverse_transform:
  assumes "length m = D" "shaped B D y" "shaped B D s" "shaped B D t"
  shows "shaped B D (inverse_transform m y s t)"
  using assms
  by (intro shapedI) (simp_all add: inverse_transform_def tensor_nth shaped_length shaped_row)

lemma nth_forward_transform:
  assumes "length m = D" "shaped B D x" "shaped B D s" "shaped B D t" "i < B" "j < D"
  shows "forward_transform m x s t ! i ! j =
    x ! i ! j * m ! j +
    (1 - m ! j) * (x ! i ! j * exp (s ! i ! j) * (1 - m ! j) + t ! i ! j * (1 - m ! j))"
  using assms
  by (simp add: forward_transform_def tensor_nth shaped_length shaped_row)

lemma nth_inverse_transform:
  assumes "length m = D" "shaped B D y" "shaped B D s" "shaped B D t" "i < B" "j < D"
  shows "inverse_transform m y s t ! i ! j =
    (1 - m ! j) * (y ! i ! j - t ! i ! j * (1 - m ! j)) * exp (- (s ! i ! j * (1 - m ! j)))
    + y ! i ! j * m ! j"
  using assms
  by (simp add: inverse_transform_def tensor_nth shaped_length shaped_row)

lemma shaped_mul_tv: "length m = D \<Longrightarrow> shaped B D x \<Longrightarrow> shaped B D (mul_tv x m)"
  by (intro shapedI) (simp_all add: tensor_nth shaped_length shaped_row)

lemma nth_mul_tv:
  "length m = D \<Longrightarrow> shaped B D x \<Longrightarrow> i < B \<Longrightarrow> j < D \<Longrightarrow> mul_tv x m ! i ! j = x ! i ! j * m ! j"
  by (simp add: tensor_nth shaped_length shaped_row)

subsection \<open>Construction\<close>

text \<open>
  C4 (as amended). Construction performs no validation of the masks: for every list of
  networks, every list of masks (binary or not) and every distribution,
  \<open>realnvp.__init__\<close> succeeds and stores the masks as given, with \<open>num_cl\<close> the
  number of masks.
\<close>

theorem realnvp_init_never_fails:
  "realnvp_init ls ms d = Inr \<lparr>num_cl = length ms, distr = d, masks = ms, layers = ls\<rparr>"
  by (simp add: realnvp_init_def)

text \<open>
  The claim as stated fails: the mask \<open>[2, 3]\<close> is not binary, and construction with it
  succeeds.
\<close>

theorem realnvp_init_accepts_non_binary_mask:
  "\<not> binary [2, 3] \<and>
   realnvp_init [constant_net [0, 0] [0, 0]] [[2, 3]] flat_log_prob =
     Inr \<lparr>num_cl = 1, distr = flat_log_prob, masks = [[2, 3]],
          layers = [constant_net [0, 0] [0, 0]]\<rparr>"
  by (simp add: realnvp_init_def binary_def)

subsection \<open>The flow without layers\<close>

text \<open>
  C10. For a \<open>realnvp\<close> constructed with an empty list of masks, \<open>forward\<close> and
  \<open>inverse\<close> return the input batch unchanged with a log-determinant of zero for every
  sample, and \<open>log_likelihood\<close> returns \<open>distr.log_prob\<close> of the input, for a
  distribution that returns one value per sample.
\<close>

theorem empty_flow_identity:
  assumes "realnvp_init ls [] d = Inr self" and "length (d x) = length x"
  shows "forward self x = Inr (x, zeros (length x)) \<and>
         inverse self x = Inr (x, zeros (length x)) \<and>
         log_likelihood self x = Inr (d x)"
  using assms
  by (auto simp: realnvp_init_def forward_def inverse_def log_likelihood_def add_v_zeros)

theorem empty_flow_identity_witness:
  "realnvp_init [] [] flat_log_prob =
     Inr \<lparr>num_cl = 0, distr = flat_log_prob, masks = [], layers = []\<rparr> \<and>
   length (flat_log_prob [[1, 2]]) = length [[1, 2 :: real]] \<and>
   forward \<lparr>num_cl = 0, distr = flat_log_prob, masks = [], layers = []\<rparr> [[1, 2]]
     = Inr ([[1, 2]], [0]) \<and>
   inverse \<lparr>num_cl = 0, distr = flat_log_prob, masks = [], layers = []\<rparr> [[1, 2]]
     = Inr ([[1, 2]], [0]) \<and>
   log_likelihood \<lparr>num_cl = 0, distr = flat_log_prob, masks = [], layers = []\<rparr> [[1, 2]]
     = Inr [0]"
proof -
  have a: "realnvp_init [] [] flat_log_prob =
     Inr \<lparr>num_cl = 0, distr = flat_log_prob, masks = [], layers = []\<rparr>"
    by (simp add: realnvp_init_def)
  have b: "length (flat_log_prob [[1, 2]]) = length [[1, 2 :: real]]"
    by (simp add: flat_log_prob_def)
  show ?thesis
    using a b empty_flow_identity [OF a b] by (simp add: zeros_def flat_log_prob_def)
qed

subsection \<open>Steps of a network with zero scale and constant translation\<close>





subsection \<open>Steps of the network that returns its input\<close>

lemma net_ok_echo_net: "net_ok B D echo_net"
  by (simp add: net_ok_def echo_net_def shaped_def list_all_length)

lemma forward_step_echo_0:
  "forward_step [0, 1] echo_net ([[p, q]], [l]) = ([[p + q, q]], [l + q])"
  by (simp add: forward_step_def echo_net_def tensor_defs Let_def)

lemma forward_step_echo_1:
  "forward_step [1, 0] echo_net ([[p, q]], [l]) = ([[p, q + p]], [l + p])"
  by (simp add: forward_step_def echo_net_def tensor_defs Let_def)

lemma inverse_step_echo_0:
  "inverse_step [0, 1] echo_net ([[p, q]], [l]) = ([[p - q, q]], [l - q])"
  by (simp add: inverse_step_def echo_net_def tensor_defs Let_def)

lemma inverse_step_echo_1:
  "inverse_step [1, 0] echo_net ([[p, q]], [l]) = ([[p, q - p]], [l - p])"
  by (simp add: inverse_step_def echo_net_def tensor_defs Let_def)

lemma scale_of_echo_0: "scale_of [0, 1] echo_net [[p, q]] = [[0, q]]"
  by (simp add: scale_of_def echo_net_def mul_tv_def)

lemma scale_of_echo_1: "scale_of [1, 0] echo_net [[p, q]] = [[p, 0]]"
  by (simp add: scale_of_def echo_net_def mul_tv_def)

subsection \<open>The batches and the log-determinants along the layers\<close>

lemma forward_step_unfold:
  "forward_step m net (x, ld) =
     (forward_transform m x (scale_of m net x) (snd (net (mul_tv x m))),
      add_v ld (reduce_sum_1 (scale_of m net x)))"
  by (simp add: scale_of_def
      forward_step_eq [of net x m "fst (net (mul_tv x m))" "snd (net (mul_tv x m))"])

lemma inverse_step_unfold:
  "inverse_step m net (y, ld) =
     (inverse_transform m y (scale_of m net y) (snd (net (mul_tv y m))),
      sub_v ld (reduce_sum_1 (scale_of m net y)))"
  by (simp add: scale_of_def
      inverse_step_eq [of net y m "fst (net (mul_tv y m))" "snd (net (mul_tv y m))"])

lemma add_v_nth_map:
  assumes "length a = length b"
  shows "add_v a b = map (\<lambda>i. a ! i + b ! i) [0..<length b]"
proof (rule nth_equalityI)
  show "length (add_v a b) = length (map (\<lambda>i. a ! i + b ! i) [0..<length b])"
    using assms by (simp add: add_v_def)
next
  fix i assume "i < length (add_v a b)"
  then show "add_v a b ! i = map (\<lambda>i. a ! i + b ! i) [0..<length b] ! i"
    using assms by (simp add: add_v_def)
qed

lemma add_v_map_reduce_sum:
  assumes "length s = B"
  shows "add_v (map f [0..<B]) (reduce_sum_1 s) = map (\<lambda>i. f i + sum_list (s ! i)) [0..<B]"
proof (rule nth_equalityI)
  show "length (add_v (map f [0..<B]) (reduce_sum_1 s)) =
        length (map (\<lambda>i. f i + sum_list (s ! i)) [0..<B])"
    using assms by (simp add: add_v_def reduce_sum_1_def)
next
  fix i assume "i < length (add_v (map f [0..<B]) (reduce_sum_1 s))"
  then show "add_v (map f [0..<B]) (reduce_sum_1 s) ! i =
      map (\<lambda>i. f i + sum_list (s ! i)) [0..<B] ! i"
    using assms by (simp add: add_v_def reduce_sum_1_def)
qed

lemma sub_v_map_reduce_sum:
  assumes "length s = B"
  shows "sub_v (map f [0..<B]) (reduce_sum_1 s) = map (\<lambda>i. f i - sum_list (s ! i)) [0..<B]"
proof (rule nth_equalityI)
  show "length (sub_v (map f [0..<B]) (reduce_sum_1 s)) =
        length (map (\<lambda>i. f i - sum_list (s ! i)) [0..<B])"
    using assms by (simp add: sub_v_def reduce_sum_1_def)
next
  fix i assume "i < length (sub_v (map f [0..<B]) (reduce_sum_1 s))"
  then show "sub_v (map f [0..<B]) (reduce_sum_1 s) ! i =
      map (\<lambda>i. f i - sum_list (s ! i)) [0..<B] ! i"
    using assms by (simp add: sub_v_def reduce_sum_1_def)
qed

lemma zeros_map: "zeros B = map (\<lambda>i. 0) [0..<B]"
  by (simp add: zeros_def map_replicate_const)

lemma layers_shaped_nth:
  assumes "layers_shaped B D L" and "k < length L"
  shows "length (fst (L ! k)) = D \<and> net_ok B D (snd (L ! k))"
  using assms by (simp add: layers_shaped_def list_all_length case_prod_beta)

lemma shaped_scale_of:
  assumes "length m = D" and "net_ok B D net" and "shaped B D x"
  shows "shaped B D (scale_of m net x) \<and> shaped B D (snd (net (mul_tv x m)))"
  using assms shaped_mul_tv [OF assms(1) assms(3)]
  by (simp add: scale_of_def net_ok_def)

lemma compose_forward_snoc_pair:
  "compose_forward (L @ [a]) st = forward_step (fst a) (snd a) (compose_forward L st)"
  using compose_forward_snoc [of L "fst a" "snd a" st] by simp

lemma compose_inverse_Cons_pair:
  "compose_inverse (a # L) st = inverse_step (fst a) (snd a) (compose_inverse L st)"
  by (cases a) simp

lemma forward_upto_Suc:
  assumes "k < length L"
  shows "forward_upto L x (Suc k) =
     fst (forward_step (fst (L ! k)) (snd (L ! k)) (forward_upto L x k, ld))"
proof -
  obtain X l where c: "compose_forward (take k L) (x, zeros (length x)) = (X, l)"
    by (cases "compose_forward (take k L) (x, zeros (length x))")
  have "take (Suc k) L = take k L @ [L ! k]"
    using assms by (simp add: take_Suc_conv_app_nth)
  then show ?thesis
    by (simp add: forward_upto_def compose_forward_snoc_pair c forward_step_unfold)
qed

lemma inverse_downto_step:
  assumes "k < length L"
  shows "inverse_downto L x k =
     fst (inverse_step (fst (L ! k)) (snd (L ! k)) (inverse_downto L x (Suc k), ld))"
proof -
  obtain Y l where c: "compose_inverse (drop (Suc k) L) (x, zeros (length x)) = (Y, l)"
    by (cases "compose_inverse (drop (Suc k) L) (x, zeros (length x))")
  have "drop k L = L ! k # drop (Suc k) L"
    using assms by (simp add: Cons_nth_drop_Suc)
  then show ?thesis
    by (simp add: inverse_downto_def compose_inverse_Cons_pair c inverse_step_unfold
        del: compose_inverse.simps)
qed

lemma compose_forward_take:
  assumes L: "layers_shaped B D L" and x: "shaped B D x" and k: "k \<le> length L"
  shows "compose_forward (take k L) (x, zeros B) =
           (forward_upto L x k,
            map (\<lambda>i. \<Sum>j<k. sum_list
                   (scale_of (fst (L ! j)) (snd (L ! j)) (forward_upto L x j) ! i)) [0..<B]) \<and>
         shaped B D (forward_upto L x k)"
  using k
proof (induction k)
  case 0
  show ?case
    using x by (simp add: forward_upto_def zeros_map)
next
  case (Suc k)
  let ?m = "fst (L ! k)" and ?net = "snd (L ! k)"
  let ?X = "forward_upto L x k"
  let ?S = "\<lambda>k i. \<Sum>j<k. sum_list (scale_of (fst (L ! j)) (snd (L ! j)) (forward_upto L x j) ! i)"
  from Suc have k: "k < length L" and IH: "compose_forward (take k L) (x, zeros B) =
      (?X, map (?S k) [0..<B])" and X: "shaped B D ?X"
    by simp_all
  have mn: "length ?m = D" "net_ok B D ?net"
    using layers_shaped_nth [OF L k] by simp_all
  have s: "shaped B D (scale_of ?m ?net ?X)" and t: "shaped B D (snd (?net (mul_tv ?X ?m)))"
    using shaped_scale_of [OF mn X] by simp_all
  have tk: "take (Suc k) L = take k L @ [L ! k]"
    using k by (simp add: take_Suc_conv_app_nth)
  have up: "forward_upto L x (Suc k) =
      forward_transform ?m ?X (scale_of ?m ?net ?X) (snd (?net (mul_tv ?X ?m)))"
    using forward_upto_Suc [OF k, of x "[]"] by (simp add: forward_step_unfold)
  have "compose_forward (take (Suc k) L) (x, zeros B) =
      forward_step ?m ?net (?X, map (?S k) [0..<B])"
    by (simp add: tk compose_forward_snoc_pair IH)
  also have "\<dots> = (forward_upto L x (Suc k),
      map (\<lambda>i. ?S k i + sum_list (scale_of ?m ?net ?X ! i)) [0..<B])"
    by (simp add: forward_step_unfold up
        add_v_map_reduce_sum [OF shaped_length [OF s]])
  finally have "compose_forward (take (Suc k) L) (x, zeros B) =
      (forward_upto L x (Suc k), map (?S (Suc k)) [0..<B])"
    by simp
  moreover have "shaped B D (forward_upto L x (Suc k))"
    unfolding up by (rule shaped_forward_transform [OF mn(1) X s t])
  ultimately show ?case by simp
qed

lemma inverse_downto_Cons: "inverse_downto (a # L) x (Suc k) = inverse_downto L x k"
  by (simp add: inverse_downto_def)

lemma compose_inverse_all:
  assumes "layers_shaped B D L" and x: "shaped B D x"
  shows "compose_inverse L (x, zeros B) =
           (inverse_downto L x 0,
            map (\<lambda>i. - (\<Sum>j<length L. sum_list
                   (scale_of (fst (L ! j)) (snd (L ! j)) (inverse_downto L x (Suc j)) ! i)))
              [0..<B]) \<and>
         shaped B D (inverse_downto L x 0)"
  using assms(1)
proof (induction L)
  case Nil
  show ?case
    using x by (simp add: inverse_downto_def zeros_map)
next
  case (Cons a L)
  obtain m net where a: "a = (m, net)" by (cases a)
  let ?Y = "inverse_downto L x 0"
  let ?S = "\<lambda>i. \<Sum>j<length L. sum_list
      (scale_of (fst (L ! j)) (snd (L ! j)) (inverse_downto L x (Suc j)) ! i)"
  from Cons.prems have mn: "length m = D" "net_ok B D net" and L: "layers_shaped B D L"
    by (simp_all add: a layers_shaped_def)
  from Cons.IH [OF L] have IH: "compose_inverse L (x, zeros B) = (?Y, map (\<lambda>i. - ?S i) [0..<B])"
    and Y: "shaped B D ?Y"
    by simp_all
  have s: "shaped B D (scale_of m net ?Y)" and t: "shaped B D (snd (net (mul_tv ?Y m)))"
    using shaped_scale_of [OF mn Y] by simp_all
  have down: "inverse_downto (a # L) x 0 =
      inverse_transform m ?Y (scale_of m net ?Y) (snd (net (mul_tv ?Y m)))"
    using inverse_downto_step [of 0 "a # L" x "[]"]
    by (simp add: a inverse_downto_Cons inverse_step_unfold)
  have "compose_inverse (a # L) (x, zeros B) = inverse_step m net (?Y, map (\<lambda>i. - ?S i) [0..<B])"
    by (simp add: a IH)
  also have "\<dots> = (inverse_downto (a # L) x 0,
      map (\<lambda>i. - ?S i - sum_list (scale_of m net ?Y ! i)) [0..<B])"
    by (simp add: inverse_step_unfold down sub_v_map_reduce_sum [OF shaped_length [OF s]])
  also have "map (\<lambda>i. - ?S i - sum_list (scale_of m net ?Y ! i)) [0..<B] =
      map (\<lambda>i. - (\<Sum>j<length (a # L). sum_list
        (scale_of (fst ((a # L) ! j)) (snd ((a # L) ! j))
           (inverse_downto (a # L) x (Suc j)) ! i))) [0..<B]"
    by (simp add: sum.lessThan_Suc_shift a inverse_downto_Cons del: sum.lessThan_Suc)
  finally have "compose_inverse (a # L) (x, zeros B) =
      (inverse_downto (a # L) x 0,
       map (\<lambda>i. - (\<Sum>j<length (a # L). sum_list
        (scale_of (fst ((a # L) ! j)) (snd ((a # L) ! j))
           (inverse_downto (a # L) x (Suc j)) ! i))) [0..<B])" .
  moreover have "shaped B D (inverse_downto (a # L) x 0)"
    unfolding down by (rule shaped_inverse_transform [OF mn(1) Y s t])
  ultimately show ?case by simp
qed

subsection \<open>Composition of the layers and the likelihood\<close>

text \<open>
  C6. For a flow built by \<open>realnvp.__init__\<close> with a network for every mask, masks of
  length \<open>D\<close> and networks that respect the shape \<open>[B, D]\<close>, on a batch of that shape:
  \<open>forward\<close> starts from the input, applies the step of layer \<open>k\<close> to the batch that
  the layers before \<open>k\<close> produced, for \<open>k\<close> ascending, and returns the batch after the last
  layer; \<open>inverse\<close> starts from the input, applies the inverse step of layer \<open>k\<close>, with
  the mask and the network of that same index, to the batch that the layers after \<open>k\<close>
  produced, for \<open>k\<close> descending, and returns the batch after layer 0. The log-determinant
  that \<open>forward\<close> returns for sample \<open>i\<close> is the sum over the layers of the sum of row
  \<open>i\<close> of the \<open>s\<close> of that layer, and the one that \<open>inverse\<close> returns is the negated
  sum: each starts from zero and every layer adds its term.
\<close>

theorem flow_layer_order:
  assumes init: "realnvp_init ls ms d = Inr self" and len: "length ms \<le> length ls"
    and L: "layers_shaped B D (zip ms ls)" and x: "shaped B D x"
  shows "forward self x =
           Inr (forward_upto (zip ms ls) x (length ms),
                map (\<lambda>i. \<Sum>k<length ms. sum_list
                       (scale_of (ms ! k) (ls ! k) (forward_upto (zip ms ls) x k) ! i))
                  [0..<B]) \<and>
         inverse self x =
           Inr (inverse_downto (zip ms ls) x 0,
                map (\<lambda>i. - (\<Sum>k<length ms. sum_list
                       (scale_of (ms ! k) (ls ! k) (inverse_downto (zip ms ls) x (Suc k)) ! i)))
                  [0..<B]) \<and>
         forward_upto (zip ms ls) x 0 = x \<and>
         inverse_downto (zip ms ls) x (length ms) = x \<and>
         (\<forall>k<length ms. \<forall>ld.
            forward_upto (zip ms ls) x (Suc k) =
              fst (forward_step (ms ! k) (ls ! k) (forward_upto (zip ms ls) x k, ld)) \<and>
            inverse_downto (zip ms ls) x k =
              fst (inverse_step (ms ! k) (ls ! k) (inverse_downto (zip ms ls) x (Suc k), ld)))"
proof -
  let ?L = "zip ms ls"
  have n: "length ?L = length ms"
    using len by simp
  have nth: "fst (?L ! k) = ms ! k \<and> snd (?L ! k) = ls ! k" if "k < length ms" for k
    using that len by simp
  have B: "length x = B"
    by (rule shaped_length [OF x])
  have fsum: "(\<Sum>j<length ms. sum_list
        (scale_of (fst (?L ! j)) (snd (?L ! j)) (forward_upto ?L x j) ! i)) =
      (\<Sum>k<length ms. sum_list (scale_of (ms ! k) (ls ! k) (forward_upto ?L x k) ! i))" for i
    by (rule sum.cong) (simp_all add: nth)
  have isum: "(\<Sum>j<length ms. sum_list
        (scale_of (fst (?L ! j)) (snd (?L ! j)) (inverse_downto ?L x (Suc j)) ! i)) =
      (\<Sum>k<length ms. sum_list
        (scale_of (ms ! k) (ls ! k) (inverse_downto ?L x (Suc k)) ! i))" for i
    by (rule sum.cong) (simp_all add: nth)
  have "forward self x = Inr (compose_forward (take (length ms) ?L) (x, zeros B))"
    using forward_compose [OF init len, of x] n by (simp add: B)
  then have f: "forward self x =
      Inr (forward_upto ?L x (length ms),
           map (\<lambda>i. \<Sum>k<length ms. sum_list
                  (scale_of (ms ! k) (ls ! k) (forward_upto ?L x k) ! i)) [0..<B])"
    using compose_forward_take [OF L x, of "length ms"] n by (simp add: fsum)
  have "inverse self x = Inr (compose_inverse ?L (x, zeros B))"
    using inverse_compose [OF init len, of x] by (simp add: B)
  then have g: "inverse self x =
      Inr (inverse_downto ?L x 0,
           map (\<lambda>i. - (\<Sum>k<length ms. sum_list
                  (scale_of (ms ! k) (ls ! k) (inverse_downto ?L x (Suc k)) ! i))) [0..<B])"
    using compose_inverse_all [OF L x] n by (simp add: isum)
  have f0: "forward_upto ?L x 0 = x"
    by (simp add: forward_upto_def)
  have gn: "inverse_downto ?L x (length ms) = x"
    using n by (simp add: inverse_downto_def)
  have step: "forward_upto ?L x (Suc k) =
        fst (forward_step (ms ! k) (ls ! k) (forward_upto ?L x k, ld)) \<and>
      inverse_downto ?L x k =
        fst (inverse_step (ms ! k) (ls ! k) (inverse_downto ?L x (Suc k), ld))"
    if k: "k < length ms" for k ld
  proof -
    have kL: "k < length ?L" using k n by simp
    show ?thesis
      using forward_upto_Suc [OF kL, of x ld] inverse_downto_step [OF kL, of x ld] nth [OF k]
      by simp
  qed
  show ?thesis
    using f g f0 gn step by blast
qed

theorem flow_layer_order_witness:
  "realnvp_init [echo_net, echo_net] [[0, 1], [1, 0]] flat_log_prob =
     Inr \<lparr>num_cl = 2, distr = flat_log_prob, masks = [[0, 1], [1, 0]],
          layers = [echo_net, echo_net]\<rparr> \<and>
   length [[0, 1], [1, 0 :: real]] \<le> length [echo_net, echo_net] \<and>
   layers_shaped 1 2 (zip [[0, 1], [1, 0]] [echo_net, echo_net]) \<and>
   shaped 1 2 [[1, 2]] \<and>
   forward \<lparr>num_cl = 2, distr = flat_log_prob, masks = [[0, 1], [1, 0]],
          layers = [echo_net, echo_net]\<rparr> [[1, 2]] = Inr ([[3, 5]], [5]) \<and>
   inverse \<lparr>num_cl = 2, distr = flat_log_prob, masks = [[0, 1], [1, 0]],
          layers = [echo_net, echo_net]\<rparr> [[1, 2]] = Inr ([[0, 1]], [- 2])"
proof -
  let ?L = "[([0, 1 :: real], echo_net), ([1, 0], echo_net)]"
  have a: "realnvp_init [echo_net, echo_net] [[0, 1], [1, 0]] flat_log_prob =
     Inr \<lparr>num_cl = 2, distr = flat_log_prob, masks = [[0, 1], [1, 0]],
          layers = [echo_net, echo_net]\<rparr>"
    by (simp add: realnvp_init_def)
  have b: "length [[0, 1], [1, 0 :: real]] \<le> length [echo_net, echo_net]"
    by simp
  have c: "layers_shaped 1 2 (zip [[0, 1], [1, 0]] [echo_net, echo_net])"
    by (simp add: layers_shaped_def net_ok_echo_net)
  have d: "shaped 1 2 [[1, 2]]"
    by (simp add: shaped_def)
  have f0: "forward_upto ?L [[1, 2]] 0 = [[1, 2]]"
    by (simp add: forward_upto_def)
  have f1: "forward_upto ?L [[1, 2]] (Suc 0) = [[3, 2]]"
    by (simp add: forward_upto_def zeros_def forward_step_echo_0)
  have f2: "forward_upto ?L [[1, 2]] (Suc (Suc 0)) = [[3, 5]]"
    by (simp add: forward_upto_def zeros_def forward_step_echo_0 forward_step_echo_1)
  have g2: "inverse_downto ?L [[1, 2]] (Suc (Suc 0)) = [[1, 2]]"
    by (simp add: inverse_downto_def)
  have g1: "inverse_downto ?L [[1, 2]] (Suc 0) = [[1, 1]]"
    by (simp add: inverse_downto_def zeros_def inverse_step_echo_1)
  have g0: "inverse_downto ?L [[1, 2]] 0 = [[0, 1]]"
    by (simp add: inverse_downto_def zeros_def inverse_step_echo_0 inverse_step_echo_1)
  have two: "length [[0, 1], [1, 0 :: real]] = Suc (Suc 0)"
    by simp
  from flow_layer_order [OF a b c d] have
    "forward \<lparr>num_cl = 2, distr = flat_log_prob, masks = [[0, 1], [1, 0]],
          layers = [echo_net, echo_net]\<rparr> [[1, 2]] = Inr ([[3, 5]], [5])"
    and "inverse \<lparr>num_cl = 2, distr = flat_log_prob, masks = [[0, 1], [1, 0]],
          layers = [echo_net, echo_net]\<rparr> [[1, 2]] = Inr ([[0, 1]], [- 2])"
    unfolding two
    by (simp_all add: f0 f1 f2 g0 g1 g2 scale_of_echo_0 scale_of_echo_1)
  with a b c d show ?thesis
    by blast
qed

text \<open>
  C7. For a flow built by \<open>realnvp.__init__\<close> with a network for every mask, masks of
  length \<open>D\<close> and networks that respect the shape \<open>[B, D]\<close>, on a batch \<open>x\<close> of that
  shape: when \<open>realnvp.inverse(x)\<close> returns the pair \<open>(z, log_det)\<close> and
  \<open>distr.log_prob(z)\<close> has one value per entry of \<open>log_det\<close>,
  \<open>realnvp.log_likelihood(x)\<close> returns, for each of the \<open>B\<close> samples,
  \<open>distr.log_prob(z)[i] + log_det[i]\<close>; and it calls \<open>self.inverse\<close> exactly once.
\<close>

theorem log_likelihood_change_of_variables:
  assumes init: "realnvp_init ls ms d = Inr self" and len: "length ms \<le> length ls"
    and L: "layers_shaped B D (zip ms ls)" and x: "shaped B D x"
    and inv: "inverse self x = Inr (z, log_det)"
    and lp: "length (d z) = length log_det"
  shows "log_likelihood self x = Inr (map (\<lambda>i. d z ! i + log_det ! i) [0..<B]) \<and>
         log_likelihood_counted self x n = (log_likelihood self x, Suc n)"
proof -
  have "inverse self x = Inr (compose_inverse (zip ms ls) (x, zeros B))"
    using inverse_compose [OF init len, of x] by (simp add: shaped_length [OF x])
  then have "length log_det = B"
    using compose_inverse_all [OF L x] inv by auto
  moreover have "distr self = d"
    using init by (auto simp: realnvp_init_def)
  ultimately show ?thesis
    using inv lp
    by (simp add: log_likelihood_def log_likelihood_counted_def inverse_counted_def
        add_v_nth_map)
qed

theorem log_likelihood_change_of_variables_witness:
  "realnvp_init [echo_net] [[0, 1]] normal_log_prob =
     Inr \<lparr>num_cl = 1, distr = normal_log_prob, masks = [[0, 1]], layers = [echo_net]\<rparr> \<and>
   length [[0, 1 :: real]] \<le> length [echo_net] \<and>
   layers_shaped 1 2 (zip [[0, 1]] [echo_net]) \<and>
   shaped 1 2 [[1, 2]] \<and>
   inverse \<lparr>num_cl = 1, distr = normal_log_prob, masks = [[0, 1]], layers = [echo_net]\<rparr>
     [[1, 2]] = Inr ([[- 1, 2]], [- 2]) \<and>
   length (normal_log_prob [[- 1, 2]]) = length [- 2 :: real] \<and>
   log_likelihood \<lparr>num_cl = 1, distr = normal_log_prob, masks = [[0, 1]], layers = [echo_net]\<rparr>
     [[1, 2]] = Inr [- (9 / 2) - ln (2 * pi)] \<and>
   log_likelihood_counted
     \<lparr>num_cl = 1, distr = normal_log_prob, masks = [[0, 1]], layers = [echo_net]\<rparr>
     [[1, 2]] 0 = (Inr [- (9 / 2) - ln (2 * pi)], 1)"
proof -
  have i: "realnvp_init [echo_net] [[0, 1]] normal_log_prob =
     Inr \<lparr>num_cl = 1, distr = normal_log_prob, masks = [[0, 1]], layers = [echo_net]\<rparr>"
    by (simp add: realnvp_init_def)
  have l: "length [[0, 1 :: real]] \<le> length [echo_net]"
    by simp
  have s: "layers_shaped 1 2 (zip [[0, 1]] [echo_net])"
    by (simp add: layers_shaped_def net_ok_echo_net)
  have x: "shaped 1 2 [[1, 2]]"
    by (simp add: shaped_def)
  have a: "inverse \<lparr>num_cl = 1, distr = normal_log_prob, masks = [[0, 1]], layers = [echo_net]\<rparr>
     [[1, 2]] = Inr ([[- 1, 2]], [- 2])"
    by (simp add: inverse_def inverse_body_def index_def inverse_step_echo_0 zeros_def)
  have b: "length (normal_log_prob [[- 1, 2]]) = length [- 2 :: real]"
    by (simp add: normal_log_prob_def)
  have c: "map (\<lambda>i. normal_log_prob [[- 1, 2]] ! i + [- 2] ! i) [0..<1] =
      [- (9 / 2) - ln (2 * pi)]"
    by (simp add: normal_log_prob_def)
  from log_likelihood_change_of_variables [OF i l s x a b, of 0] i l s x a b c show ?thesis
    by simp
qed


text \<open>
  C2. The claim is that a step contributes to the log-determinant the sum of \<open>s\<close> over
  the unmasked coordinates only; the code contributes the sum over all coordinates, so the
  two differ wherever \<open>s\<close> is not zero at a masked coordinate. With the mask
  \<open>[0, 1]\<close> only coordinate 0 is unmasked, and a network that returns \<open>s = [1/2, 1/4]\<close> has the unmasked sum \<open>1/2\<close>; the loop adds
  \<open>tf.reduce_sum(s, [1])\<close>, the sum over both coordinates, so \<open>forward\<close> returns the
  log-determinant \<open>3/4\<close> and \<open>inverse\<close> returns \<open>- 3/4\<close>.
\<close>

theorem log_det_includes_masked_coordinates:
  "forward \<lparr>num_cl = 1, distr = flat_log_prob, masks = [[0, 1]],
       layers = [constant_net [1/2, 1/4] [0, 0]]\<rparr> [[1, 2]] = Inr ([[exp (1/2), 2]], [3/4]) \<and>
   inverse \<lparr>num_cl = 1, distr = flat_log_prob, masks = [[0, 1]],
       layers = [constant_net [1/2, 1/4] [0, 0]]\<rparr> [[1, 2]]
     = Inr ([[exp (- (1/2)), 2]], [- (3/4)]) \<and>
   unmasked_sum [0, 1] [[1/2, 1/4]] = [1/2]"
  by (simp add: forward_def inverse_def forward_body_def inverse_body_def index_def
      forward_step_def inverse_step_def constant_net_def tensor_defs Let_def
      unmasked_sum_def zeros_def)

subsection \<open>Scalar identities of the coupling transform\<close>

lemma real_forward_masked:
  fixes x m s t :: real
  assumes "m = 0 \<or> m = 1"
  shows "(x * m + (1 - m) * (x * exp s * (1 - m) + t * (1 - m))) * m = x * m"
  using assms by auto

lemma real_inverse_masked:
  fixes y m s t :: real
  assumes "m = 0 \<or> m = 1"
  shows "((1 - m) * (y - t * (1 - m)) * exp (- (s * (1 - m))) + y * m) * m = y * m"
  using assms by auto

lemma real_inverse_forward:
  fixes x m s t :: real
  assumes "m = 0 \<or> m = 1"
  shows "(1 - m) * ((x * m + (1 - m) * (x * exp s * (1 - m) + t * (1 - m))) - t * (1 - m))
           * exp (- (s * (1 - m)))
         + (x * m + (1 - m) * (x * exp s * (1 - m) + t * (1 - m))) * m = x"
  using assms by (auto simp: exp_minus field_simps)

lemma real_forward_inverse:
  fixes y m s t :: real
  assumes "m = 0 \<or> m = 1"
  shows "((1 - m) * (y - t * (1 - m)) * exp (- (s * (1 - m))) + y * m) * m
         + (1 - m) * (((1 - m) * (y - t * (1 - m)) * exp (- (s * (1 - m))) + y * m) * exp s * (1 - m)
                      + t * (1 - m)) = y"
  using assms by (auto simp: exp_minus field_simps)

lemma real_forward_spec:
  fixes x m s t :: real
  assumes "m = 0 \<or> m = 1"
  shows "x * m + (1 - m) * (x * exp s * (1 - m) + t * (1 - m))
       = x * m + (1 - m) * (x * exp s + t)"
  using assms by auto

subsection \<open>Vectors of log-determinants and well-shaped networks\<close>

lemma length_add_v: "length (add_v a b) = min (length a) (length b)"
  by (simp add: add_v_def)

lemma length_sub_v: "length (sub_v a b) = min (length a) (length b)"
  by (simp add: sub_v_def)

lemma length_reduce_sum_1: "length (reduce_sum_1 s) = length s"
  by (simp add: reduce_sum_1_def)

lemma add_v_assoc:
  "length a = n \<Longrightarrow> length b = n \<Longrightarrow> length c = n \<Longrightarrow>
   add_v (add_v a b) c = add_v a (add_v b c)"
  by (simp add: add_v_def list_eq_iff_nth_eq)

lemma sub_v_sub_v:
  "length a = n \<Longrightarrow> length b = n \<Longrightarrow> length c = n \<Longrightarrow>
   sub_v (sub_v a c) b = sub_v a (add_v b c)"
  by (simp add: add_v_def sub_v_def list_eq_iff_nth_eq)

lemma zeros_add_v: "length a = n \<Longrightarrow> add_v (zeros n) a = a"
  by (simp add: add_v_def zeros_def list_eq_iff_nth_eq)

lemma zeros_sub_v: "length a = n \<Longrightarrow> sub_v (zeros n) a = map uminus a"
  by (simp add: sub_v_def zeros_def list_eq_iff_nth_eq)

lemma net_ok_fst: "net_ok B D net \<Longrightarrow> shaped B D x \<Longrightarrow> net x = (s, t) \<Longrightarrow> shaped B D s"
  unfolding net_ok_def by (metis fst_conv)

lemma net_ok_snd: "net_ok B D net \<Longrightarrow> shaped B D x \<Longrightarrow> net x = (s, t) \<Longrightarrow> shaped B D t"
  unfolding net_ok_def by (metis snd_conv)

subsection \<open>A step and its inverse\<close>

lemma forward_transform_masked:
  assumes m: "binary m" and len: "length m = D" and x: "shaped B D x"
    and s: "shaped B D s" and t: "shaped B D t"
  shows "mul_tv (forward_transform m x s t) m = mul_tv x m"
proof (rule batch_eqI [of B D])
  have X: "shaped B D (forward_transform m x s t)"
    by (rule shaped_forward_transform [OF len x s t])
  show "shaped B D (mul_tv (forward_transform m x s t) m)"
    by (rule shaped_mul_tv [OF len X])
  show "shaped B D (mul_tv x m)"
    by (rule shaped_mul_tv [OF len x])
  fix i j assume i: "i < B" and j: "j < D"
  have b: "m ! j = 0 \<or> m ! j = 1"
    using m len j by (simp add: binary_nth)
  show "mul_tv (forward_transform m x s t) m ! i ! j = mul_tv x m ! i ! j"
    unfolding nth_mul_tv [OF len X i j] nth_mul_tv [OF len x i j]
      nth_forward_transform [OF len x s t i j]
    by (rule real_forward_masked [OF b])
qed

lemma inverse_transform_masked:
  assumes m: "binary m" and len: "length m = D" and y: "shaped B D y"
    and s: "shaped B D s" and t: "shaped B D t"
  shows "mul_tv (inverse_transform m y s t) m = mul_tv y m"
proof (rule batch_eqI [of B D])
  have Y: "shaped B D (inverse_transform m y s t)"
    by (rule shaped_inverse_transform [OF len y s t])
  show "shaped B D (mul_tv (inverse_transform m y s t) m)"
    by (rule shaped_mul_tv [OF len Y])
  show "shaped B D (mul_tv y m)"
    by (rule shaped_mul_tv [OF len y])
  fix i j assume i: "i < B" and j: "j < D"
  have b: "m ! j = 0 \<or> m ! j = 1"
    using m len j by (simp add: binary_nth)
  show "mul_tv (inverse_transform m y s t) m ! i ! j = mul_tv y m ! i ! j"
    unfolding nth_mul_tv [OF len Y i j] nth_mul_tv [OF len y i j]
      nth_inverse_transform [OF len y s t i j]
    by (rule real_inverse_masked [OF b])
qed

lemma inverse_forward_transform:
  assumes m: "binary m" and len: "length m = D" and x: "shaped B D x"
    and s: "shaped B D s" and t: "shaped B D t"
  shows "inverse_transform m (forward_transform m x s t) s t = x"
proof (rule batch_eqI [of B D])
  have X: "shaped B D (forward_transform m x s t)"
    by (rule shaped_forward_transform [OF len x s t])
  show "shaped B D (inverse_transform m (forward_transform m x s t) s t)"
    by (rule shaped_inverse_transform [OF len X s t])
  show "shaped B D x" by fact
  fix i j assume i: "i < B" and j: "j < D"
  have b: "m ! j = 0 \<or> m ! j = 1"
    using m len j by (simp add: binary_nth)
  show "inverse_transform m (forward_transform m x s t) s t ! i ! j = x ! i ! j"
    unfolding nth_inverse_transform [OF len X s t i j] nth_forward_transform [OF len x s t i j]
    by (rule real_inverse_forward [OF b])
qed

lemma forward_inverse_transform:
  assumes m: "binary m" and len: "length m = D" and y: "shaped B D y"
    and s: "shaped B D s" and t: "shaped B D t"
  shows "forward_transform m (inverse_transform m y s t) s t = y"
proof (rule batch_eqI [of B D])
  have Y: "shaped B D (inverse_transform m y s t)"
    by (rule shaped_inverse_transform [OF len y s t])
  show "shaped B D (forward_transform m (inverse_transform m y s t) s t)"
    by (rule shaped_forward_transform [OF len Y s t])
  show "shaped B D y" by fact
  fix i j assume i: "i < B" and j: "j < D"
  have b: "m ! j = 0 \<or> m ! j = 1"
    using m len j by (simp add: binary_nth)
  show "forward_transform m (inverse_transform m y s t) s t ! i ! j = y ! i ! j"
    unfolding nth_forward_transform [OF len Y s t i j] nth_inverse_transform [OF len y s t i j]
    by (rule real_forward_inverse [OF b])
qed

lemma shaped_spec_transform:
  assumes "length m = D" "shaped B D x" "shaped B D s" "shaped B D t"
  shows "shaped B D (spec_transform m x s t)"
  using assms
  by (intro shapedI) (simp_all add: spec_transform_def tensor_nth shaped_length shaped_row)

lemma nth_spec_transform:
  assumes "length m = D" "shaped B D x" "shaped B D s" "shaped B D t" "i < B" "j < D"
  shows "spec_transform m x s t ! i ! j =
    x ! i ! j * m ! j + (1 - m ! j) * (x ! i ! j * exp (s ! i ! j) + t ! i ! j)"
  using assms
  by (simp add: spec_transform_def tensor_nth shaped_length shaped_row)

lemma forward_spec_transform:
  assumes m: "binary m" and len: "length m = D" and x: "shaped B D x"
    and s: "shaped B D s" and t: "shaped B D t"
  shows "forward_transform m x s t = spec_transform m x s t"
proof (rule batch_eqI [of B D])
  show "shaped B D (forward_transform m x s t)"
    by (rule shaped_forward_transform [OF len x s t])
  show "shaped B D (spec_transform m x s t)"
    by (rule shaped_spec_transform [OF len x s t])
  fix i j assume i: "i < B" and j: "j < D"
  have b: "m ! j = 0 \<or> m ! j = 1"
    using m len j by (simp add: binary_nth)
  show "forward_transform m x s t ! i ! j = spec_transform m x s t ! i ! j"
    unfolding nth_forward_transform [OF len x s t i j] nth_spec_transform [OF len x s t i j]
    by (rule real_forward_spec [OF b])
qed

lemma sub_v_zeros: "length a = n \<Longrightarrow> sub_v a (zeros n) = a"
  by (simp add: sub_v_def zeros_def list_eq_iff_nth_eq)

lemma length_zeros: "length (zeros n) = n"
  by (simp add: zeros_def)

lemma layers_ok_Cons:
  "layers_ok B D ((m, net) # L) =
     (binary m \<and> length m = D \<and> net_ok B D net \<and> layers_ok B D L)"
  by (simp add: layers_ok_def)

lemma forward_then_inverse_step:
  assumes m: "binary m" and len: "length m = D" and net: "net_ok B D net"
    and x: "shaped B D x"
  obtains y d where "shaped B D y" and "length d = B"
    and "\<And>ld. forward_step m net (x, ld) = (y, add_v ld d)"
    and "\<And>ld. inverse_step m net (y, ld) = (x, sub_v ld d)"
proof -
  obtain s t where st: "net (mul_tv x m) = (s, t)"
    by (cases "net (mul_tv x m)")
  have xm: "shaped B D (mul_tv x m)"
    by (rule shaped_mul_tv [OF len x])
  have s: "shaped B D s"
    by (rule net_ok_fst [OF net xm st])
  have t: "shaped B D t"
    by (rule net_ok_snd [OF net xm st])
  let ?y = "forward_transform m x s t"
  have y: "shaped B D ?y"
    by (rule shaped_forward_transform [OF len x s t])
  have "mul_tv ?y m = mul_tv x m"
    by (rule forward_transform_masked [OF m len x s t])
  then have st': "net (mul_tv ?y m) = (s, t)"
    using st by simp
  have inv: "inverse_transform m ?y s t = x"
    by (rule inverse_forward_transform [OF m len x s t])
  have d: "length (reduce_sum_1 s) = B"
    using s by (simp add: length_reduce_sum_1 shaped_length)
  have f: "\<And>ld. forward_step m net (x, ld) = (?y, add_v ld (reduce_sum_1 s))"
    by (rule forward_step_eq) (rule st)
  have g: "\<And>ld. inverse_step m net (?y, ld) = (x, sub_v ld (reduce_sum_1 s))"
    using inverse_step_eq [of net "forward_transform m x s t" m s t] st' inv by simp
  show thesis
    by (rule that [OF y d f g])
qed

lemma inverse_then_forward_step:
  assumes m: "binary m" and len: "length m = D" and net: "net_ok B D net"
    and y: "shaped B D y"
  obtains x d where "shaped B D x" and "length d = B"
    and "\<And>ld. inverse_step m net (y, ld) = (x, sub_v ld d)"
    and "\<And>ld. forward_step m net (x, ld) = (y, add_v ld d)"
proof -
  obtain s t where st: "net (mul_tv y m) = (s, t)"
    by (cases "net (mul_tv y m)")
  have ym: "shaped B D (mul_tv y m)"
    by (rule shaped_mul_tv [OF len y])
  have s: "shaped B D s"
    by (rule net_ok_fst [OF net ym st])
  have t: "shaped B D t"
    by (rule net_ok_snd [OF net ym st])
  let ?x = "inverse_transform m y s t"
  have x: "shaped B D ?x"
    by (rule shaped_inverse_transform [OF len y s t])
  have "mul_tv ?x m = mul_tv y m"
    by (rule inverse_transform_masked [OF m len y s t])
  then have st': "net (mul_tv ?x m) = (s, t)"
    using st by simp
  have fwd: "forward_transform m ?x s t = y"
    by (rule forward_inverse_transform [OF m len y s t])
  have d: "length (reduce_sum_1 s) = B"
    using s by (simp add: length_reduce_sum_1 shaped_length)
  have g: "\<And>ld. inverse_step m net (y, ld) = (?x, sub_v ld (reduce_sum_1 s))"
    by (rule inverse_step_eq) (rule st)
  have f: "\<And>ld. forward_step m net (?x, ld) = (y, add_v ld (reduce_sum_1 s))"
    using forward_step_eq [of net "inverse_transform m y s t" m s t] st' fwd by simp
  show thesis
    by (rule that [OF x d g f])
qed

subsection \<open>Composed steps and their inverses\<close>

lemma compose_forward_inverse:
  assumes "layers_ok B D L" and "shaped B D x"
  shows "\<exists>y d. shaped B D y \<and> length d = B \<and>
     (\<forall>ld. length ld = B \<longrightarrow> compose_forward L (x, ld) = (y, add_v ld d)) \<and>
     (\<forall>ld. length ld = B \<longrightarrow> compose_inverse L (y, ld) = (x, sub_v ld d))"
  using assms
proof (induction L arbitrary: x)
  case Nil
  have "length (zeros B) = B" by (rule length_zeros)
  with Nil show ?case
    by (intro exI [of _ x] exI [of _ "zeros B"]) (simp add: add_v_zeros sub_v_zeros)
next
  case (Cons a L)
  obtain m net where a: "a = (m, net)" by (cases a)
  from Cons.prems(1) have m: "binary m" and len: "length m = D" and net: "net_ok B D net"
    and L: "layers_ok B D L"
    by (simp_all add: a layers_ok_Cons)
  obtain x1 d1 where x1: "shaped B D x1" and d1: "length d1 = B"
    and f1: "\<And>ld. forward_step m net (x, ld) = (x1, add_v ld d1)"
    and g1: "\<And>ld. inverse_step m net (x1, ld) = (x, sub_v ld d1)"
    by (rule forward_then_inverse_step [OF m len net Cons.prems(2)]) blast
  from Cons.IH [OF L x1] obtain y d2 where y: "shaped B D y" and d2: "length d2 = B"
    and f2: "\<And>ld. length ld = B \<Longrightarrow> compose_forward L (x1, ld) = (y, add_v ld d2)"
    and g2: "\<And>ld. length ld = B \<Longrightarrow> compose_inverse L (y, ld) = (x1, sub_v ld d2)"
    by blast
  have d: "length (add_v d1 d2) = B"
    using d1 d2 by (simp add: length_add_v)
  have f: "compose_forward (a # L) (x, ld) = (y, add_v ld (add_v d1 d2))" if ld: "length ld = B" for ld
  proof -
    have "length (add_v ld d1) = B"
      using ld d1 by (simp add: length_add_v)
    then show ?thesis
      by (simp add: a f1 f2 add_v_assoc [OF ld d1 d2])
  qed
  have g: "compose_inverse (a # L) (y, ld) = (x, sub_v ld (add_v d1 d2))" if ld: "length ld = B" for ld
    by (simp add: a g2 [OF ld] g1 sub_v_sub_v [OF ld d1 d2])
  show ?case
    using y d f g by blast
qed

lemma compose_inverse_forward:
  assumes "layers_ok B D L" and "shaped B D y"
  shows "\<exists>x d. shaped B D x \<and> length d = B \<and>
     (\<forall>ld. length ld = B \<longrightarrow> compose_inverse L (y, ld) = (x, sub_v ld d)) \<and>
     (\<forall>ld. length ld = B \<longrightarrow> compose_forward L (x, ld) = (y, add_v ld d))"
  using assms
proof (induction L)
  case Nil
  have "length (zeros B) = B" by (rule length_zeros)
  with Nil show ?case
    by (intro exI [of _ y] exI [of _ "zeros B"]) (simp add: add_v_zeros sub_v_zeros)
next
  case (Cons a L)
  obtain m net where a: "a = (m, net)" by (cases a)
  from Cons.prems(1) have m: "binary m" and len: "length m = D" and net: "net_ok B D net"
    and L: "layers_ok B D L"
    by (simp_all add: a layers_ok_Cons)
  from Cons.IH [OF L Cons.prems(2)] obtain x1 d2 where x1: "shaped B D x1" and d2: "length d2 = B"
    and g2: "\<And>ld. length ld = B \<Longrightarrow> compose_inverse L (y, ld) = (x1, sub_v ld d2)"
    and f2: "\<And>ld. length ld = B \<Longrightarrow> compose_forward L (x1, ld) = (y, add_v ld d2)"
    by blast
  obtain x d1 where x: "shaped B D x" and d1: "length d1 = B"
    and g1: "\<And>ld. inverse_step m net (x1, ld) = (x, sub_v ld d1)"
    and f1: "\<And>ld. forward_step m net (x, ld) = (x1, add_v ld d1)"
    by (rule inverse_then_forward_step [OF m len net x1]) blast
  have d: "length (add_v d1 d2) = B"
    using d1 d2 by (simp add: length_add_v)
  have g: "compose_inverse (a # L) (y, ld) = (x, sub_v ld (add_v d1 d2))" if ld: "length ld = B" for ld
    by (simp add: a g2 [OF ld] g1 sub_v_sub_v [OF ld d1 d2])
  have f: "compose_forward (a # L) (x, ld) = (y, add_v ld (add_v d1 d2))" if ld: "length ld = B" for ld
  proof -
    have "length (add_v ld d1) = B"
      using ld d1 by (simp add: length_add_v)
    then show ?thesis
      by (simp add: a f1 f2 add_v_assoc [OF ld d1 d2])
  qed
  show ?case
    using x d f g by blast
qed

subsection \<open>The flow and its inverse\<close>

lemma net_ok_constant_net:
  "length sv = D \<Longrightarrow> length tv = D \<Longrightarrow> net_ok B D (constant_net sv tv)"
  by (simp add: net_ok_def constant_net_def shaped_def list_all_length)

lemma flow_forward_inverse:
  assumes init: "realnvp_init ls ms d = Inr self" and len: "length ms \<le> length ls"
    and ok: "layers_ok B D (zip ms ls)" and x: "shaped B D x"
  shows "\<exists>y ld. forward self x = Inr (y, ld) \<and> inverse self y = Inr (x, map uminus ld)"
proof -
  from compose_forward_inverse [OF ok x] obtain y dl
    where y: "shaped B D y" and dl: "length dl = B"
      and f: "\<And>ld. length ld = B \<Longrightarrow> compose_forward (zip ms ls) (x, ld) = (y, add_v ld dl)"
      and g: "\<And>ld. length ld = B \<Longrightarrow> compose_inverse (zip ms ls) (y, ld) = (x, sub_v ld dl)"
    by blast
  have z: "length (zeros B) = B" by (rule length_zeros)
  have "forward self x = Inr (y, dl)"
    using forward_compose [OF init len, of x] f [OF z] shaped_length [OF x]
    by (simp add: zeros_add_v [OF dl])
  moreover have "inverse self y = Inr (x, map uminus dl)"
    using inverse_compose [OF init len, of y] g [OF z] shaped_length [OF y]
    by (simp add: zeros_sub_v [OF dl])
  ultimately show ?thesis by blast
qed

lemma flow_inverse_forward:
  assumes init: "realnvp_init ls ms d = Inr self" and len: "length ms \<le> length ls"
    and ok: "layers_ok B D (zip ms ls)" and x: "shaped B D x"
  shows "\<exists>z ld. inverse self x = Inr (z, map uminus ld) \<and> forward self z = Inr (x, ld)"
proof -
  from compose_inverse_forward [OF ok x] obtain z dl
    where z: "shaped B D z" and dl: "length dl = B"
      and g: "\<And>ld. length ld = B \<Longrightarrow> compose_inverse (zip ms ls) (x, ld) = (z, sub_v ld dl)"
      and f: "\<And>ld. length ld = B \<Longrightarrow> compose_forward (zip ms ls) (z, ld) = (x, add_v ld dl)"
    by blast
  have zs: "length (zeros B) = B" by (rule length_zeros)
  have "inverse self x = Inr (z, map uminus dl)"
    using inverse_compose [OF init len, of x] g [OF zs] shaped_length [OF x]
    by (simp add: zeros_sub_v [OF dl])
  moreover have "forward self z = Inr (x, dl)"
    using forward_compose [OF init len, of z] f [OF zs] shaped_length [OF z]
    by (simp add: zeros_add_v [OF dl])
  ultimately show ?thesis by blast
qed

subsection \<open>Round trip, log-determinants and single steps\<close>

text \<open>
  C1. For a flow built by \<open>realnvp.__init__\<close> from binary masks of length \<open>D\<close> and
  networks that return \<open>s\<close> and \<open>t\<close> of the shape of their input, and for every
  batch \<open>x\<close> of shape \<open>[B, D]\<close> (in particular \<open>D = 2\<close>), \<open>forward\<close> and
  \<open>inverse\<close> succeed, the batch returned by \<open>inverse(forward(x))\<close> is \<open>x\<close> and the
  batch returned by \<open>forward(inverse(x))\<close> is \<open>x\<close>, in exact real arithmetic.
\<close>

theorem flow_round_trip:
  assumes "realnvp_init ls ms d = Inr self" and "length ms \<le> length ls"
    and "layers_ok B D (zip ms ls)" and "shaped B D x"
  shows "(\<exists>y ld ld'. forward self x = Inr (y, ld) \<and> inverse self y = Inr (x, ld')) \<and>
         (\<exists>z ld ld'. inverse self x = Inr (z, ld) \<and> forward self z = Inr (x, ld'))"
  using flow_forward_inverse [OF assms] flow_inverse_forward [OF assms] by blast

theorem flow_round_trip_witness:
  "realnvp_init [constant_net [1/2, 1/4] [3, 4], constant_net [1/3, 1/5] [5, 6]]
       [[0, 1], [1, 0]] normal_log_prob =
     Inr \<lparr>num_cl = 2, distr = normal_log_prob, masks = [[0, 1], [1, 0]],
          layers = [constant_net [1/2, 1/4] [3, 4], constant_net [1/3, 1/5] [5, 6]]\<rparr> \<and>
   length [[0, 1], [1, 0 :: real]] \<le>
     length [constant_net [1/2, 1/4] [3, 4], constant_net [1/3, 1/5] [5, 6]] \<and>
   layers_ok 1 2 (zip [[0, 1], [1, 0]]
     [constant_net [1/2, 1/4] [3, 4], constant_net [1/3, 1/5] [5, 6]]) \<and>
   shaped 1 2 [[1, 2]] \<and>
   (\<exists>y ld ld'.
      forward \<lparr>num_cl = 2, distr = normal_log_prob, masks = [[0, 1], [1, 0]],
          layers = [constant_net [1/2, 1/4] [3, 4], constant_net [1/3, 1/5] [5, 6]]\<rparr>
        [[1, 2]] = Inr (y, ld) \<and>
      inverse \<lparr>num_cl = 2, distr = normal_log_prob, masks = [[0, 1], [1, 0]],
          layers = [constant_net [1/2, 1/4] [3, 4], constant_net [1/3, 1/5] [5, 6]]\<rparr>
        y = Inr ([[1, 2]], ld')) \<and>
   (\<exists>z ld ld'.
      inverse \<lparr>num_cl = 2, distr = normal_log_prob, masks = [[0, 1], [1, 0]],
          layers = [constant_net [1/2, 1/4] [3, 4], constant_net [1/3, 1/5] [5, 6]]\<rparr>
        [[1, 2]] = Inr (z, ld) \<and>
      forward \<lparr>num_cl = 2, distr = normal_log_prob, masks = [[0, 1], [1, 0]],
          layers = [constant_net [1/2, 1/4] [3, 4], constant_net [1/3, 1/5] [5, 6]]\<rparr>
        z = Inr ([[1, 2]], ld'))"
proof -
  have a: "realnvp_init [constant_net [1/2, 1/4] [3, 4], constant_net [1/3, 1/5] [5, 6]]
       [[0, 1], [1, 0]] normal_log_prob =
     Inr \<lparr>num_cl = 2, distr = normal_log_prob, masks = [[0, 1], [1, 0]],
          layers = [constant_net [1/2, 1/4] [3, 4], constant_net [1/3, 1/5] [5, 6]]\<rparr>"
    by (simp add: realnvp_init_def)
  have b: "length [[0, 1], [1, 0 :: real]] \<le>
     length [constant_net [1/2, 1/4] [3, 4], constant_net [1/3, 1/5] [5, 6]]"
    by simp
  have c: "layers_ok 1 2 (zip [[0, 1], [1, 0]]
     [constant_net [1/2, 1/4] [3, 4], constant_net [1/3, 1/5] [5, 6]])"
    by (simp add: layers_ok_def binary_def net_ok_constant_net)
  have d: "shaped 1 2 [[1, 2]]"
    by (simp add: shaped_def)
  from flow_round_trip [OF a b c d] a b c d show ?thesis
    by blast
qed

text \<open>
  C3. Under the same conditions the log-determinant that \<open>forward(x)\<close> returns is the
  negation, sample by sample, of the log-determinant that \<open>inverse\<close> returns on the
  batch returned by \<open>forward(x)\<close>.
\<close>

theorem log_det_antisymmetry:
  assumes "realnvp_init ls ms d = Inr self" and "length ms \<le> length ls"
    and "layers_ok B D (zip ms ls)" and "shaped B D x"
  shows "\<exists>y ld z ld'. forward self x = Inr (y, ld) \<and> inverse self y = Inr (z, ld') \<and>
           ld = map uminus ld'"
proof -
  from flow_forward_inverse [OF assms] obtain y ld
    where "forward self x = Inr (y, ld)" and "inverse self y = Inr (x, map uminus ld)"
    by blast
  moreover have "ld = map uminus (map uminus ld)"
    by (simp add: list_eq_iff_nth_eq)
  ultimately show ?thesis by blast
qed

theorem log_det_antisymmetry_witness:
  "realnvp_init [constant_net [1/2, 1/4] [3, 4], constant_net [1/3, 1/5] [5, 6]]
       [[0, 1], [1, 0]] normal_log_prob =
     Inr \<lparr>num_cl = 2, distr = normal_log_prob, masks = [[0, 1], [1, 0]],
          layers = [constant_net [1/2, 1/4] [3, 4], constant_net [1/3, 1/5] [5, 6]]\<rparr> \<and>
   length [[0, 1], [1, 0 :: real]] \<le>
     length [constant_net [1/2, 1/4] [3, 4], constant_net [1/3, 1/5] [5, 6]] \<and>
   layers_ok 2 2 (zip [[0, 1], [1, 0]]
     [constant_net [1/2, 1/4] [3, 4], constant_net [1/3, 1/5] [5, 6]]) \<and>
   shaped 2 2 [[1, 2], [7, 8]] \<and>
   (\<exists>y ld z ld'.
      forward \<lparr>num_cl = 2, distr = normal_log_prob, masks = [[0, 1], [1, 0]],
          layers = [constant_net [1/2, 1/4] [3, 4], constant_net [1/3, 1/5] [5, 6]]\<rparr>
        [[1, 2], [7, 8]] = Inr (y, ld) \<and>
      inverse \<lparr>num_cl = 2, distr = normal_log_prob, masks = [[0, 1], [1, 0]],
          layers = [constant_net [1/2, 1/4] [3, 4], constant_net [1/3, 1/5] [5, 6]]\<rparr>
        y = Inr (z, ld') \<and>
      ld = map uminus ld')"
proof -
  have a: "realnvp_init [constant_net [1/2, 1/4] [3, 4], constant_net [1/3, 1/5] [5, 6]]
       [[0, 1], [1, 0]] normal_log_prob =
     Inr \<lparr>num_cl = 2, distr = normal_log_prob, masks = [[0, 1], [1, 0]],
          layers = [constant_net [1/2, 1/4] [3, 4], constant_net [1/3, 1/5] [5, 6]]\<rparr>"
    by (simp add: realnvp_init_def)
  have b: "length [[0, 1], [1, 0 :: real]] \<le>
     length [constant_net [1/2, 1/4] [3, 4], constant_net [1/3, 1/5] [5, 6]]"
    by simp
  have c: "layers_ok 2 2 (zip [[0, 1], [1, 0]]
     [constant_net [1/2, 1/4] [3, 4], constant_net [1/3, 1/5] [5, 6]])"
    by (simp add: layers_ok_def binary_def net_ok_constant_net)
  have d: "shaped 2 2 [[1, 2], [7, 8]]"
    by (simp add: shaped_def)
  from log_det_antisymmetry [OF a b c d] a b c d show ?thesis
    by blast
qed

text \<open>
  C8. For a binary mask the expression of the forward pass, which multiplies by
  \<open>reversed_mask\<close> inside and outside the parentheses, equals the expression of the
  specification with a single multiplication, \<open>x_masked + (1 - m) * (x * exp(s) + t)\<close>,
  for all \<open>x\<close>, \<open>s\<close> and \<open>t\<close> of shape \<open>[B, D]\<close>; so does the batch that a step of
  \<open>forward\<close> computes when the network returns \<open>(s, t)\<close>.
\<close>

theorem forward_expression_single_mask:
  assumes "binary m" and "length m = D" and "shaped B D x"
    and "shaped B D s" and "shaped B D t" and "net (mul_tv x m) = (s, t)"
  shows "forward_transform m x s t = spec_transform m x s t \<and>
         fst (forward_step m net (x, ld)) = spec_transform m x s t"
  using forward_spec_transform [OF assms(1-5)]
    forward_step_eq [of net x m s t ld, OF assms(6)] by simp

theorem forward_expression_single_mask_witness:
  "binary [0, 1] \<and> length [0, 1 :: real] = 2 \<and> shaped 1 2 [[1, 2]] \<and>
   shaped 1 2 [[1/2, 1/4]] \<and> shaped 1 2 [[3, 4]] \<and>
   constant_net [1/2, 1/4] [3, 4] (mul_tv [[1, 2]] [0, 1]) = ([[1/2, 1/4]], [[3, 4]]) \<and>
   forward_transform [0, 1] [[1, 2]] [[1/2, 1/4]] [[3, 4]] =
     spec_transform [0, 1] [[1, 2]] [[1/2, 1/4]] [[3, 4]] \<and>
   fst (forward_step [0, 1] (constant_net [1/2, 1/4] [3, 4]) ([[1, 2]], [0])) =
     spec_transform [0, 1] [[1, 2]] [[1/2, 1/4]] [[3, 4]] \<and>
   spec_transform [0, 1] [[1, 2]] [[1/2, 1/4]] [[3, 4]] = [[exp (1/2) + 3, 2]]"
proof -
  have a: "binary [0, 1]" by (simp add: binary_def)
  have b: "length [0, 1 :: real] = 2" by simp
  have c: "shaped 1 2 [[1, 2]]" by (simp add: shaped_def)
  have d: "shaped 1 2 [[1/2, 1/4]]" by (simp add: shaped_def)
  have e: "shaped 1 2 [[3, 4]]" by (simp add: shaped_def)
  have f: "constant_net [1/2, 1/4] [3, 4] (mul_tv [[1, 2]] [0, 1]) = ([[1/2, 1/4]], [[3, 4]])"
    by (simp add: constant_net_def mul_tv_def)
  have g: "spec_transform [0, 1] [[1, 2]] [[1/2, 1/4]] [[3, 4]] = [[exp (1/2) + 3, 2]]"
    by (simp add: spec_transform_def tensor_defs)
  from forward_expression_single_mask
    [where net = "constant_net [1/2, 1/4] [3, 4]" and ld = "[0]", OF a b c d e f]
    a b c d e f g show ?thesis
    by blast
qed

text \<open>
  Over the reals, where \<open>exp\<close> has no overflow, every coordinate \<open>j\<close> where the mask is
  \<open>1\<close> has in the output of a step, forward or inverse, the value it has in the input.
\<close>

lemma pass_through_over_reals:
  assumes len: "length m = D" and x: "shaped B D x" and st: "net (mul_tv x m) = (s, t)"
    and s: "shaped B D s" and t: "shaped B D t" and i: "i < B" and j: "j < D"
    and mj: "m ! j = 1"
  shows "fst (forward_step m net (x, ld)) ! i ! j = x ! i ! j \<and>
         fst (inverse_step m net (x, ld)) ! i ! j = x ! i ! j"
  using forward_step_eq [of net x m s t ld, OF st] inverse_step_eq [of net x m s t ld, OF st]
    nth_forward_transform [OF len x s t i j] nth_inverse_transform [OF len x s t i j] mj
  by simp

subsection \<open>A masked coordinate when \<open>exp\<close> overflows\<close>





end
